theory Spec2Isabelle
  imports Main "HOL-Library.Word"
begin

section \<open>Strings and JSON values\<close>

text \<open>
  A JavaScript string is a sequence of UTF-16 code units.  String literals of the
  source are written \<open>js ''...''\<close>; all of them are ASCII.
\<close>

type_synonym cu = "16 word"
type_synonym jstring = "cu list"

definition js :: "string \<Rightarrow> jstring" where
  "js s = map (\<lambda>c. of_char c) s"

text \<open>
  The value \<open>JSON.parse\<close> and \<open>Response.json\<close> hand to the program.  An object is
  the list of its own properties and \<open>record[k]\<close> is \<open>map_of kv k\<close>; none of the keys the
  program reads (\<open>@graph\<close>, \<open>@type\<close>, \<open>text\<close>, \<open>itemListElement\<close>, \<open>url\<close>) exists on
  \<open>Object.prototype\<close> or \<open>Array.prototype\<close>, so a missing own property reads as
  \<open>undefined\<close>, here \<open>None\<close>.  The program never inspects a number beyond its
  truthiness, so the payload of \<open>JNum\<close> only has to tell zero from non-zero.
\<close>

datatype json =
    JNull
  | JBool bool
  | JNum int
  | JStr jstring
  | JArr "json list"
  | JObj "(jstring \<times> json) list"

text \<open>\<open>value && typeof value === "object" && !Array.isArray(value)\<close>\<close>

fun isObject :: "json \<Rightarrow> bool" where
  "isObject (JObj kv) = True"
| "isObject _ = False"

text \<open>\<open>Array.isArray(value)\<close>\<close>

fun isArray :: "json \<Rightarrow> bool" where
  "isArray (JArr vs) = True"
| "isArray _ = False"

text \<open>\<open>!value\<close> is the negation of this.\<close>

fun truthy :: "json \<Rightarrow> bool" where
  "truthy JNull = False"
| "truthy (JBool b) = b"
| "truthy (JNum n) = (n \<noteq> 0)"
| "truthy (JStr s) = (s \<noteq> [])"
| "truthy (JArr vs) = True"
| "truthy (JObj kv) = True"

text \<open>
  \<open>String.prototype.trim\<close> removes leading and trailing white space and line
  terminators: TAB, LF, VT, FF, CR, SP, NBSP, U+1680, U+2000 to U+200A, U+2028, U+2029,
  U+202F, U+205F, U+3000 and U+FEFF.
\<close>

definition isWhiteSpace :: "cu \<Rightarrow> bool" where
  "isWhiteSpace c \<longleftrightarrow>
     c = 0x9 \<or> c = 0xA \<or> c = 0xB \<or> c = 0xC \<or> c = 0xD \<or> c = 0x20 \<or> c = 0xA0 \<or>
     c = 0x1680 \<or> (0x2000 \<le> c \<and> c \<le> 0x200A) \<or> c = 0x2028 \<or> c = 0x2029 \<or>
     c = 0x202F \<or> c = 0x205F \<or> c = 0x3000 \<or> c = 0xFEFF"

definition trim :: "jstring \<Rightarrow> jstring" where
  "trim s = rev (dropWhile isWhiteSpace (rev (dropWhile isWhiteSpace s)))"

text \<open>The template literal \<open>`${n}`\<close> of a non-negative integer: its decimal digits.\<close>

fun decimal :: "nat \<Rightarrow> jstring" where
  "decimal n =
     (if n < 10 then [of_nat (48 + n)] else decimal (n div 10) @ [of_nat (48 + n mod 10)])"

declare decimal.simps [simp del]

section \<open>Regular expressions\<close>

text \<open>
  The regular expressions of the source are sequences of single-character items: one
  character of a class, an optional one (\<open>?\<close>), a greedy star (\<open>*\<close>), a lazy star
  (\<open>*?\<close>) and the end-of-input anchor (\<open>$\<close> without the \<open>m\<close> flag).  \<open>rmatch r s\<close>
  is the backtracking matcher of ECMAScript started at the head of \<open>s\<close>: it returns
  the input left after the first match in priority order (a greedy item tries the
  longer alternative first, a lazy one the shorter), \<open>None\<close> when no alternative
  matches.
\<close>

datatype rx =
    One "cu \<Rightarrow> bool"
  | Opt "cu \<Rightarrow> bool"
  | Many "cu \<Rightarrow> bool"
  | Few "cu \<Rightarrow> bool"
  | Eos

fun rmatch :: "rx list \<Rightarrow> jstring \<Rightarrow> jstring option" where
  "rmatch [] s = Some s"
| "rmatch (One p # r) [] = None"
| "rmatch (One p # r) (c # cs) = (if p c then rmatch r cs else None)"
| "rmatch (Opt p # r) [] = rmatch r []"
| "rmatch (Opt p # r) (c # cs) =
     (if p c then (case rmatch r cs of Some t \<Rightarrow> Some t | None \<Rightarrow> rmatch r (c # cs))
      else rmatch r (c # cs))"
| "rmatch (Many p # r) [] = rmatch r []"
| "rmatch (Many p # r) (c # cs) =
     (if p c
      then (case rmatch (Many p # r) cs of Some t \<Rightarrow> Some t | None \<Rightarrow> rmatch r (c # cs))
      else rmatch r (c # cs))"
| "rmatch (Few p # r) [] = rmatch r []"
| "rmatch (Few p # r) (c # cs) =
     (case rmatch r (c # cs) of
        Some t \<Rightarrow> Some t
      | None \<Rightarrow> if p c then rmatch (Few p # r) cs else None)"
| "rmatch (Eos # r) [] = rmatch r []"
| "rmatch (Eos # r) (c # cs) = None"

text \<open>
  Under the \<open>i\<close> flag (without \<open>u\<close>) two code units match when their canonical forms
  agree.  Canonicalisation is \<open>toUpperCase\<close>, except that a code unit of 128 or more
  is never mapped below 128; so against the ASCII characters of the patterns here it
  is ASCII upper-casing.
\<close>

definition canon :: "cu \<Rightarrow> cu" where
  "canon c = (if 0x61 \<le> c \<and> c \<le> 0x7A then c - 0x20 else c)"

definition lit_i :: "string \<Rightarrow> rx list" where
  "lit_i s = map (\<lambda>c. One (\<lambda>x. canon x = canon (of_char c))) s"

text \<open>
  \<open>String.prototype.match\<close> with the \<open>g\<close> flag: the matched substrings, left to
  right, each search resuming where the last match ended (one code unit further after
  an empty match).  The result \<open>null\<close> of the source is the empty list here.
\<close>

function matchGlobal :: "rx list \<Rightarrow> jstring \<Rightarrow> jstring list" where
  "matchGlobal re [] = (case rmatch re [] of Some t \<Rightarrow> [[]] | None \<Rightarrow> [])"
| "matchGlobal re (c # cs) =
     (case rmatch re (c # cs) of
        None \<Rightarrow> matchGlobal re cs
      | Some t \<Rightarrow>
          if length t < Suc (length cs)
          then take (Suc (length cs) - length t) (c # cs) # matchGlobal re t
          else [] # matchGlobal re cs)"
  by pat_completeness auto
termination
  by (relation "measure (\<lambda>(re, s). length s)") auto

text \<open>
  \<open>s.replace(re, "")\<close> without the \<open>g\<close> flag deletes the leftmost match.  A
  pattern that begins with \<open>^\<close> (without the \<open>m\<close> flag) can only match at index 0.
\<close>

fun replaceFirst :: "rx list \<Rightarrow> jstring \<Rightarrow> jstring" where
  "replaceFirst re [] = (case rmatch re [] of Some t \<Rightarrow> t | None \<Rightarrow> [])"
| "replaceFirst re (c # cs) =
     (case rmatch re (c # cs) of Some t \<Rightarrow> t | None \<Rightarrow> c # replaceFirst re cs)"

definition replaceAnchored :: "rx list \<Rightarrow> jstring \<Rightarrow> jstring" where
  "replaceAnchored re s = (case rmatch re s of Some t \<Rightarrow> t | None \<Rightarrow> s)"

text \<open>
  \<open>s.split(re)\<close> for a pattern without capture groups.  The piece being collected
  is kept reversed in \<open>acc\<close>.  A match at the current position closes the piece and
  the scan resumes behind the match; an empty match closes the piece only when the
  piece is not empty, and the scan moves on by one code unit.
\<close>

function splitFrom :: "rx list \<Rightarrow> jstring \<Rightarrow> jstring \<Rightarrow> jstring list" where
  "splitFrom re acc [] = [rev acc]"
| "splitFrom re acc (c # cs) =
     (case rmatch re (c # cs) of
        None \<Rightarrow> splitFrom re (c # acc) cs
      | Some t \<Rightarrow>
          if length t < Suc (length cs) then rev acc # splitFrom re [] t
          else if acc = [] then splitFrom re [c] cs
          else rev acc # splitFrom re [c] cs)"
  by pat_completeness auto
termination
  by (relation "measure (\<lambda>(re, acc, s). length s)") auto

definition splitRe :: "rx list \<Rightarrow> jstring \<Rightarrow> jstring list" where
  "splitRe re s =
     (if s = [] then (case rmatch re [] of Some t \<Rightarrow> [] | None \<Rightarrow> [[]])
      else splitFrom re [] s)"

section \<open>The extractor (server side)\<close>

subsection \<open>\<open>flattenJsonLd\<close>\<close>

lemma size_map_of_le:
  "map_of kv k = Some v \<Longrightarrow> size v \<le> size_list (size_prod (\<lambda>x. 0) size) kv"
  by (induction kv) (auto split: if_splits)

lemma size_member_lt: "x \<in> set xs \<Longrightarrow> size x < Suc (size_list size xs)"
  by (induction xs) auto

text \<open>
  \<^verbatim>\<open>
  function flattenJsonLd(value: unknown): unknown[] {
    if (Array.isArray(value)) {
      return value.flatMap((entry) => flattenJsonLd(entry));
    }
    if (value && typeof value === "object") {
      const record = value as Record<string, unknown>;
      const graph = record["@graph"];
      if (Array.isArray(graph)) {
        return [value, ...graph.flatMap((entry) => flattenJsonLd(entry))];
      }
      return [value];
    }
    return [];
  }
  \<close>
  \<open>flatMap\<close> flattens one level, and every callback result is an array, so it is
  \<open>concat (map f xs)\<close>.
\<close>

function flattenJsonLd :: "json \<Rightarrow> json list" where
  "flattenJsonLd (JArr vs) = concat (map flattenJsonLd vs)"
| "flattenJsonLd (JObj kv) =
     (case map_of kv (js ''@graph'') of
        Some (JArr g) \<Rightarrow> JObj kv # concat (map flattenJsonLd g)
      | _ \<Rightarrow> [JObj kv])"
| "flattenJsonLd JNull = []"
| "flattenJsonLd (JBool b) = []"
| "flattenJsonLd (JNum n) = []"
| "flattenJsonLd (JStr s) = []"
  by pat_completeness auto
termination
  apply (relation "measure size")
    apply simp
   apply (simp add: size_member_lt)
  subgoal for kv x2 g x
    using size_map_of_le [of kv "js ''@graph''" "JArr g"] size_member_lt [of x g] by simp
  done

subsection \<open>\<open>isRecipe\<close>\<close>

text \<open>
  \<^verbatim>\<open>
  function isRecipe(value: unknown) {
    if (!value || typeof value !== "object") return false;
    const record = value as Record<string, unknown>;
    const type = record["@type"];
    if (Array.isArray(type)) {
      return type.includes("Recipe");
    }
    return type === "Recipe";
  }
  \<close>
  An array passes the first test (\<open>typeof [] === "object"\<close>) and has no property
  \<open>@type\<close>.  \<open>includes\<close> compares with SameValueZero, which on a string is equality
  with a string element.
\<close>

fun isRecipe :: "json \<Rightarrow> bool" where
  "isRecipe (JObj kv) =
     (case map_of kv (js ''@type'') of
        Some (JArr ts) \<Rightarrow> JStr (js ''Recipe'') \<in> set ts
      | Some t \<Rightarrow> t = JStr (js ''Recipe'')
      | None \<Rightarrow> False)"
| "isRecipe _ = False"

subsection \<open>\<open>findJsonLdScripts\<close>\<close>

text \<open>
  \<^verbatim>\<open>/<script[^>]*type=['"]application\/ld\+json['"][^>]*>([\s\S]*?)<\/script>/gi\<close>
\<close>

definition scriptRe :: "rx list" where
  "scriptRe =
     lit_i ''<script'' @ [Many (\<lambda>x. x \<noteq> 0x3E)] @ lit_i ''type=''
     @ [One (\<lambda>x. x = 0x27 \<or> x = 0x22)] @ lit_i ''application/ld+json''
     @ [One (\<lambda>x. x = 0x27 \<or> x = 0x22), Many (\<lambda>x. x \<noteq> 0x3E), One (\<lambda>x. x = 0x3E),
        Few (\<lambda>x. True)]
     @ lit_i ''</script>''"

text \<open>\<^verbatim>\<open>/^[\s\S]*?>/\<close> and \<^verbatim>\<open>/<\/script>$/i\<close>\<close>

definition openTagRe :: "rx list" where
  "openTagRe = [Few (\<lambda>x. True), One (\<lambda>x. x = 0x3E)]"

definition closeTagRe :: "rx list" where
  "closeTagRe = lit_i ''</script>'' @ [Eos]"

text \<open>
  \<^verbatim>\<open>
  function findJsonLdScripts(html: string) {
    const matches = html.match(/<script...<\/script>/gi);
    if (!matches) return [];
    return matches
      .map((match) => match.replace(/^[\s\S]*?>/, "").replace(/<\/script>$/i, ""))
      .map((content) => content.trim())
      .filter(Boolean);
  }
  \<close>
\<close>

definition findJsonLdScripts :: "jstring \<Rightarrow> jstring list" where
  "findJsonLdScripts html =
     filter (\<lambda>content. content \<noteq> [])
       (map trim
         (map (\<lambda>m. replaceFirst closeTagRe (replaceAnchored openTagRe m))
           (matchGlobal scriptRe html)))"

subsection \<open>\<open>extractRecipeFromHtml\<close>\<close>

text \<open>
  \<^verbatim>\<open>
  function extractRecipeFromHtml(html: string): Recipe | null {
    const scripts = findJsonLdScripts(html);
    const jsonObjects: unknown[] = [];
    for (const raw of scripts) {
      const trimmed = raw.trim();
      if (!trimmed) continue;
      try {
        const parsed = JSON.parse(trimmed);
        jsonObjects.push(...flattenJsonLd(parsed));
      } catch {
        continue;
      }
    }
    const recipe = jsonObjects.find((item) => isRecipe(item)) as Recipe | undefined;
    return recipe ?? null;
  }
  \<close>
  \<open>JSON.parse\<close> belongs to the platform and is a parameter: \<open>parse s = None\<close> when
  it throws.  \<open>collect\<close> is the loop, with \<open>jsonObjects\<close> as its accumulator; the
  result \<open>null\<close> is \<open>None\<close>.
\<close>

fun collect :: "(jstring \<Rightarrow> json option) \<Rightarrow> jstring list \<Rightarrow> json list \<Rightarrow> json list" where
  "collect parse [] jsonObjects = jsonObjects"
| "collect parse (raw # scripts) jsonObjects =
     (let trimmed = trim raw in
      if trimmed = [] then collect parse scripts jsonObjects
      else case parse trimmed of
             Some parsed \<Rightarrow> collect parse scripts (jsonObjects @ flattenJsonLd parsed)
           | None \<Rightarrow> collect parse scripts jsonObjects)"

definition extractRecipeFromHtml :: "(jstring \<Rightarrow> json option) \<Rightarrow> jstring \<Rightarrow> json option" where
  "extractRecipeFromHtml parse html =
     List.find isRecipe (collect parse (findJsonLdScripts html) [])"

section \<open>The endpoint (server side)\<close>

text \<open>
  What the handler uses of the platform: \<open>new URL(s)\<close> (\<open>None\<close> when it throws), of
  whose result the handler reads \<open>hostname\<close>, \<open>toString()\<close> and
  \<open>searchParams\<close>; the outbound \<open>fetch\<close> (\<open>None\<close> when the promise rejects), of
  whose response it reads \<open>status\<close>, \<open>ok\<close> and \<open>text()\<close>; and \<open>JSON.parse\<close>.
  By the Fetch standard \<open>ok\<close> holds exactly for a status from 200 to 299.
\<close>

record url =
  hostname :: jstring
  href :: jstring
  searchParams :: "(jstring \<times> jstring) list"

record upstream =
  up_status :: nat
  up_text :: jstring

definition up_ok :: "upstream \<Rightarrow> bool" where
  "up_ok r \<longleftrightarrow> 200 \<le> up_status r \<and> up_status r \<le> 299"

record platform =
  parseURL :: "jstring \<Rightarrow> url option"
  httpGet :: "jstring \<Rightarrow> (jstring \<times> jstring) list \<Rightarrow> upstream option"
  jsonParse :: "jstring \<Rightarrow> json option"

datatype body = Text jstring | Json json

record response =
  resp_status :: nat
  resp_body :: body
  resp_headers :: "(jstring \<times> jstring) list"

datatype error = TypeError | FetchRejected

definition textResponse :: "nat \<Rightarrow> jstring \<Rightarrow> response" where
  "textResponse st msg = \<lparr>resp_status = st, resp_body = Text msg, resp_headers = []\<rparr>"

text \<open>The headers of the outbound request.\<close>

definition upstreamHeaders :: "(jstring \<times> jstring) list" where
  "upstreamHeaders =
     [(js ''user-agent'', js ''ba-recipe-extractor/1.0''),
      (js ''accept'', js ''text/html,application/xhtml+xml'')]"

definition ALLOWED_HOSTS :: "jstring set" where
  "ALLOWED_HOSTS = {js ''bonappetit.com'', js ''www.bonappetit.com''}"

text \<open>
  \<^verbatim>\<open>
  async fetch(request: Request) {
    const url = new URL(request.url);
    const target = url.searchParams.get("url");
    if (!target) {
      return new Response("Missing url parameter.", { status: 400 });
    }
    let targetUrl: URL;
    try {
      targetUrl = new URL(target);
    } catch {
      return new Response("Invalid url parameter.", { status: 400 });
    }
    if (!ALLOWED_HOSTS.has(targetUrl.hostname)) {
      return new Response("Only bonappetit.com URLs are allowed.", { status: 400 });
    }
    const response = await fetch(targetUrl.toString(), { headers: { ... } });
    if (!response.ok) {
      return new Response(`Upstream request failed (${response.status}).`, { status: 502 });
    }
    const html = await response.text();
    const recipe = extractRecipeFromHtml(html);
    waitUntil(...);
    if (!recipe) {
      return new Response("No Recipe JSON-LD found on that page.", { status: 422 });
    }
    return Response.json(recipe, { status: 200, headers: { "cache-control": "no-store" } });
  }
  \<close>
  \<open>searchParams.get\<close> returns the first value stored under the name, \<open>null\<close> when
  there is none.  The log record handed to \<open>waitUntil\<close> is written after the response
  and takes no part in it.  An uncaught exception of the handler is \<open>Inl\<close>.
\<close>

definition fetch :: "platform \<Rightarrow> jstring \<Rightarrow> error + response" where
  "fetch env requestUrl =
     (case parseURL env requestUrl of
        None \<Rightarrow> Inl TypeError
      | Some url \<Rightarrow>
          (case map_of (searchParams url) (js ''url'') of
             None \<Rightarrow> Inr (textResponse 400 (js ''Missing url parameter.''))
           | Some target \<Rightarrow>
               if target = [] then Inr (textResponse 400 (js ''Missing url parameter.''))
               else
                 (case parseURL env target of
                    None \<Rightarrow> Inr (textResponse 400 (js ''Invalid url parameter.''))
                  | Some targetUrl \<Rightarrow>
                      if hostname targetUrl \<notin> ALLOWED_HOSTS
                      then Inr (textResponse 400 (js ''Only bonappetit.com URLs are allowed.''))
                      else
                        (case httpGet env (href targetUrl) upstreamHeaders of
                           None \<Rightarrow> Inl FetchRejected
                         | Some response \<Rightarrow>
                             if \<not> up_ok response
                             then Inr (textResponse 502
                                    (js ''Upstream request failed ('' @ decimal (up_status response)
                                       @ js '').''))
                             else
                               (case extractRecipeFromHtml (jsonParse env) (up_text response) of
                                  None \<Rightarrow>
                                    Inr (textResponse 422
                                           (js ''No Recipe JSON-LD found on that page.''))
                                | Some recipe \<Rightarrow>
                                    Inr \<lparr>resp_status = 200, resp_body = Json recipe,
                                         resp_headers =
                                           [(js ''cache-control'', js ''no-store'')]\<rparr>)))))"

section \<open>The field normalizers (client side)\<close>

text \<open>
  The recipe the client renders is the value of \<open>res.json()\<close>, and a field of it is a
  property lookup: \<open>None\<close> is \<open>undefined\<close>.  The declared type of the record is
  erased at run time, so the normalizers are modelled on every JSON value; calling
  \<open>trim\<close> or \<open>split\<close> on a value that is not a string throws a \<open>TypeError\<close>.
\<close>

text \<open>\<^verbatim>\<open>/\r?\n/\<close>\<close>

definition lineBreakRe :: "rx list" where
  "lineBreakRe = [Opt (\<lambda>x. x = 0xD), One (\<lambda>x. x = 0xA)]"

text \<open>\<open>items.map((item) => item.trim())\<close>\<close>

fun trimAll :: "json list \<Rightarrow> error + jstring list" where
  "trimAll [] = Inr []"
| "trimAll (JStr s # items) =
     (case trimAll items of Inl e \<Rightarrow> Inl e | Inr ys \<Rightarrow> Inr (trim s # ys))"
| "trimAll (item # items) = Inl TypeError"

text \<open>\<open>.map((item) => item.trim()).filter(Boolean)\<close>\<close>

definition trimAndFilter :: "json list \<Rightarrow> error + jstring list" where
  "trimAndFilter items =
     (case trimAll items of Inl e \<Rightarrow> Inl e | Inr ys \<Rightarrow> Inr (filter (\<lambda>y. y \<noteq> []) ys))"

text \<open>
  \<^verbatim>\<open>
  function normalizeIngredients(value: Recipe["recipeIngredient"]) {
    if (!value) return [];
    if (Array.isArray(value))
      return value.map((item) => item.trim()).filter(Boolean);
    return value
      .split(/\r?\n/)
      .map((item) => item.trim())
      .filter(Boolean);
  }
  \<close>
\<close>

fun normalizeIngredients :: "json option \<Rightarrow> error + jstring list" where
  "normalizeIngredients None = Inr []"
| "normalizeIngredients (Some value) =
     (if \<not> truthy value then Inr []
      else case value of
             JArr items \<Rightarrow> trimAndFilter items
           | JStr s \<Rightarrow> trimAndFilter (map JStr (splitRe lineBreakRe s))
           | _ \<Rightarrow> Inl TypeError)"

text \<open>
  The callback of \<open>flatMap\<close> in \<open>normalizeInstructions\<close>:
  \<^verbatim>\<open>
  (item) => {
    if (typeof item === "string") return [item];
    if (item?.text) return [item.text];
    if (typeof item?.itemListElement === "string")
      return [item.itemListElement];
    return [];
  }
  \<close>
  Only an object can have the properties \<open>text\<close> and \<open>itemListElement\<close>.
\<close>

fun stepTexts :: "json \<Rightarrow> json list" where
  "stepTexts (JStr s) = [JStr s]"
| "stepTexts (JObj kv) =
     (case map_of kv (js ''text'') of
        Some t \<Rightarrow>
          if truthy t then [t]
          else (case map_of kv (js ''itemListElement'') of Some (JStr e) \<Rightarrow> [JStr e] | _ \<Rightarrow> [])
      | None \<Rightarrow>
          (case map_of kv (js ''itemListElement'') of Some (JStr e) \<Rightarrow> [JStr e] | _ \<Rightarrow> []))"
| "stepTexts item = []"

text \<open>
  \<^verbatim>\<open>
  function normalizeInstructions(value: Recipe["recipeInstructions"]): string[] {
    if (!value) return [];
    if (typeof value === "string") {
      return value.split(/\r?\n/).map((item) => item.trim()).filter(Boolean);
    }
    if (Array.isArray(value)) {
      return value.flatMap(...).map((item) => item.trim()).filter(Boolean);
    }
    if (value.text) {
      return [value.text.trim()].filter(Boolean);
    }
    return [];
  }
  \<close>
\<close>

fun normalizeInstructions :: "json option \<Rightarrow> error + jstring list" where
  "normalizeInstructions None = Inr []"
| "normalizeInstructions (Some value) =
     (if \<not> truthy value then Inr []
      else case value of
             JStr s \<Rightarrow> trimAndFilter (map JStr (splitRe lineBreakRe s))
           | JArr items \<Rightarrow> trimAndFilter (concat (map stepTexts items))
           | JObj kv \<Rightarrow>
               (case map_of kv (js ''text'') of
                  Some t \<Rightarrow> if truthy t then trimAndFilter [t] else Inr []
                | None \<Rightarrow> Inr [])
           | _ \<Rightarrow> Inr [])"

text \<open>\<open>x?.url ?? null\<close>, where \<open>x\<close> may be \<open>undefined\<close>\<close>

fun urlOrNull :: "json option \<Rightarrow> json" where
  "urlOrNull (Some (JObj kv)) = (case map_of kv (js ''url'') of Some u \<Rightarrow> u | None \<Rightarrow> JNull)"
| "urlOrNull x = JNull"

text \<open>
  \<^verbatim>\<open>
  function resolveImageUrl(value: Recipe["image"]) {
    if (!value) return null;
    if (typeof value === "string") return value;
    if (Array.isArray(value)) {
      const first = value[0];
      if (typeof first === "string") return first;
      return first?.url ?? null;
    }
    if (typeof value === "object") return value.url ?? null;
    return null;
  }
  \<close>
  The result \<open>null\<close> is \<open>JNull\<close>; \<open>value[0]\<close> of an empty array is
  \<open>undefined\<close>.
\<close>

fun resolveImageUrl :: "json option \<Rightarrow> json" where
  "resolveImageUrl None = JNull"
| "resolveImageUrl (Some value) =
     (if \<not> truthy value then JNull
      else case value of
             JStr s \<Rightarrow> JStr s
           | JArr items \<Rightarrow>
               (case items of
                  [] \<Rightarrow> urlOrNull None
                | JStr s # rest \<Rightarrow> JStr s
                | first # rest \<Rightarrow> urlOrNull (Some first))
           | JObj kv \<Rightarrow> urlOrNull (Some value)
           | _ \<Rightarrow> JNull)"

section \<open>Notions of the specification\<close>

text \<open>
  \<open>reaches v y\<close>: the object \<open>y\<close> is \<open>v\<close> itself, or lies in \<open>v\<close> at any depth below
  sequences and \<open>@graph\<close> sequences of objects.
\<close>

inductive reaches :: "json \<Rightarrow> json \<Rightarrow> bool" where
  self: "reaches (JObj kv) (JObj kv)"
| elem: "x \<in> set vs \<Longrightarrow> reaches x y \<Longrightarrow> reaches (JArr vs) y"
| graph: "map_of kv (js ''@graph'') = Some (JArr g) \<Longrightarrow> x \<in> set g \<Longrightarrow> reaches x y
          \<Longrightarrow> reaches (JObj kv) y"

code_pred reaches .

text \<open>
  The candidate objects of a page: the blocks in document order, each parsed block
  flattened, a block that does not parse contributing nothing.
\<close>

definition candidates :: "(jstring \<Rightarrow> json option) \<Rightarrow> jstring \<Rightarrow> json list" where
  "candidates parse html =
     concat (map (\<lambda>b. case parse b of Some v \<Rightarrow> flattenJsonLd v | None \<Rightarrow> [])
                 (findJsonLdScripts html))"


text \<open>The number a string of decimal digits denotes.\<close>

definition decimalValue :: "jstring \<Rightarrow> nat" where
  "decimalValue s = foldl (\<lambda>a d. 10 * a + (unat d - 48)) 0 s"

text \<open>
  The lines of a string: a line ends at a line feed, and a carriage return directly
  before that line feed belongs to the line ending.
\<close>

fun linesOf :: "jstring \<Rightarrow> jstring list" where
  "linesOf [] = [[]]"
| "linesOf (c # cs) =
     (if c = 0xA then [] # linesOf cs
      else if c = 0xD \<and> cs \<noteq> [] \<and> hd cs = 0xA then [] # linesOf (tl cs)
      else (case linesOf cs of l # ls \<Rightarrow> (c # l) # ls | [] \<Rightarrow> [[c]]))"

text \<open>
  What an element of an instruction list contributes, read from the wording of the
  specification: a string itself; of an object its \<open>text\<close> field when it has one;
  otherwise its \<open>itemListElement\<close> when that is a string; nothing in any other case.
\<close>

fun itemListElementText :: "(jstring \<times> json) list \<Rightarrow> jstring list" where
  "itemListElementText kv =
     (case map_of kv (js ''itemListElement'') of Some (JStr e) \<Rightarrow> [e] | _ \<Rightarrow> [])"

fun claimedStepTexts :: "json \<Rightarrow> jstring list" where
  "claimedStepTexts (JStr s) = [s]"
| "claimedStepTexts (JObj kv) =
     (case map_of kv (js ''text'') of Some (JStr t) \<Rightarrow> [t] | _ \<Rightarrow> itemListElementText kv)"
| "claimedStepTexts item = []"

text \<open>The same, with the \<open>text\<close> field counting only when it is not empty.\<close>

fun specStepTexts :: "json \<Rightarrow> jstring list" where
  "specStepTexts (JStr s) = [s]"
| "specStepTexts (JObj kv) =
     (case map_of kv (js ''text'') of
        Some (JStr t) \<Rightarrow> if t \<noteq> [] then [t] else itemListElementText kv
      | _ \<Rightarrow> itemListElementText kv)"
| "specStepTexts item = []"

text \<open>
  The declared type of an element of \<open>recipeInstructions\<close>: a string, or an object
  whose \<open>text\<close>, when present, is a string.
\<close>

fun declaredStep :: "json \<Rightarrow> bool" where
  "declaredStep (JStr s) = True"
| "declaredStep (JObj kv) =
     (case map_of kv (js ''text'') of None \<Rightarrow> True | Some (JStr t) \<Rightarrow> True | Some t \<Rightarrow> False)"
| "declaredStep item = False"

text \<open>
  The declared type of \<open>image\<close>: a string, a list of strings, an object whose
  \<open>url\<close>, when present, is a string, or a list of such objects.
\<close>

fun isString :: "json \<Rightarrow> bool" where
  "isString (JStr s) = True"
| "isString v = False"

fun declaredUrlObject :: "json \<Rightarrow> bool" where
  "declaredUrlObject (JObj kv) =
     (case map_of kv (js ''url'') of None \<Rightarrow> True | Some (JStr u) \<Rightarrow> True | Some u \<Rightarrow> False)"
| "declaredUrlObject v = False"

fun declaredImage :: "json \<Rightarrow> bool" where
  "declaredImage (JStr s) = True"
| "declaredImage (JArr items) = (list_all isString items \<or> list_all declaredUrlObject items)"
| "declaredImage (JObj kv) = declaredUrlObject (JObj kv)"
| "declaredImage v = False"

section \<open>Properties of \<open>trim\<close> and of the scan\<close>

lemma trim_no_leading: "dropWhile isWhiteSpace (trim s) = trim s"
proof -
  define u where "u = dropWhile isWhiteSpace s"
  define r where "r = dropWhile isWhiteSpace (rev u)"
  have t: "trim s = rev r" by (simp add: trim_def u_def r_def)
  have "rev u = takeWhile isWhiteSpace (rev u) @ r" by (simp add: r_def)
  then have u: "u = rev r @ rev (takeWhile isWhiteSpace (rev u))"
    by (metis rev_append rev_rev_ident)
  show ?thesis
  proof (cases "r = []")
    case True
    then show ?thesis by (simp add: t)
  next
    case False
    then have "hd (rev r) = hd u" using u by (metis hd_append2 rev_is_Nil_conv)
    moreover have "u \<noteq> []" using u False by auto
    then have "\<not> isWhiteSpace (hd u)" unfolding u_def by (rule hd_dropWhile)
    ultimately show ?thesis using False by (simp add: t dropWhile_eq_self_iff)
  qed
qed

lemma trim_idem: "trim (trim s) = trim s"
proof -
  have "trim (trim s) = rev (dropWhile isWhiteSpace (rev (trim s)))"
    by (simp add: trim_def [of "trim s"] trim_no_leading)
  also have "rev (trim s) = dropWhile isWhiteSpace (rev (dropWhile isWhiteSpace s))"
    by (simp add: trim_def)
  also have "rev (dropWhile isWhiteSpace \<dots>) = trim s"
    by (simp add: trim_def)
  finally show ?thesis .
qed

lemma collect_acc: "collect parse bs acc = acc @ collect parse bs []"
proof (induction bs arbitrary: acc)
  case Nil
  show ?case by simp
next
  case (Cons b bs)
  show ?case
    using Cons.IH [of "acc @ flattenJsonLd v" for v] Cons.IH [of acc] Cons.IH [of "flattenJsonLd v" for v]
    by (simp add: Let_def split: option.splits)
qed

section \<open>Properties of the flattening\<close>

lemma flattenJsonLd_objects: "x \<in> set (flattenJsonLd v) \<Longrightarrow> isObject x"
proof (induction v arbitrary: x rule: flattenJsonLd.induct)
  case (2 kv)
  then show ?case
    by (auto split: option.splits json.splits)
qed auto

text \<open>
  Claim C10.  Every element of the sequence \<open>flattenJsonLd\<close> returns is a non-null,
  non-array object, whatever the input; a value that is neither an array nor an object
  (a string, a number, a boolean, \<open>null\<close>) flattens to the empty sequence, so
  primitives never appear among the candidates, wherever they occur in the input.
\<close>

theorem flattenJsonLd_yields_only_objects:
  "(\<forall>x \<in> set (flattenJsonLd v). isObject x) \<and>
   (\<not> isObject v \<and> \<not> isArray v \<longrightarrow> flattenJsonLd v = [])"
proof
  show "\<forall>x \<in> set (flattenJsonLd v). isObject x"
    using flattenJsonLd_objects by blast
  show "\<not> isObject v \<and> \<not> isArray v \<longrightarrow> flattenJsonLd v = []"
    by (cases v) simp_all
qed

theorem flattenJsonLd_yields_only_objects_witness:
  "flattenJsonLd (JArr [JStr (js ''x''), JObj [(js ''@graph'', JArr [JNum 1, JObj []])]])
     = [JObj [(js ''@graph'', JArr [JNum 1, JObj []])], JObj []] \<and>
   isObject (JObj [(js ''@graph'', JArr [JNum 1, JObj []])]) \<and> isObject (JObj []) \<and>
   \<not> isObject (JNum 7) \<and> \<not> isArray (JNum 7) \<and> flattenJsonLd (JNum 7) = []"
  using flattenJsonLd_yields_only_objects
          [of "JArr [JStr (js ''x''), JObj [(js ''@graph'', JArr [JNum 1, JObj []])]]"]
        flattenJsonLd_yields_only_objects [of "JNum 7"]
  by simp

lemma flatten_reaches: "y \<in> set (flattenJsonLd v) \<Longrightarrow> reaches v y"
proof (induction v arbitrary: y rule: flattenJsonLd.induct)
  case (1 vs)
  then show ?case by (auto intro: reaches.elem)
next
  case (2 kv)
  then show ?case
    by (auto split: option.splits json.splits intro: reaches.self reaches.graph)
qed auto

lemma reaches_flatten: "reaches v y \<Longrightarrow> y \<in> set (flattenJsonLd v)"
proof (induction rule: reaches.induct)
  case (self kv)
  show ?case by (simp split: option.splits json.splits)
next
  case (elem x vs y)
  then show ?case by auto
next
  case (graph kv g x y)
  then show ?case by auto
qed

lemma findJsonLdScripts_trimmed:
  "b \<in> set (findJsonLdScripts html) \<Longrightarrow> b \<noteq> [] \<and> trim b = b"
  by (auto simp: findJsonLdScripts_def trim_idem)

lemma collect_concat:
  "\<forall>b \<in> set bs. b \<noteq> [] \<and> trim b = b \<Longrightarrow>
   collect parse bs [] =
     concat (map (\<lambda>b. case parse b of Some v \<Rightarrow> flattenJsonLd v | None \<Rightarrow> []) bs)"
proof (induction bs)
  case Nil
  show ?case by simp
next
  case (Cons b bs)
  then show ?case
    using collect_acc [of parse bs "flattenJsonLd v" for v]
    by (simp add: Let_def split: option.splits)
qed

lemma extract_find_candidates:
  "extractRecipeFromHtml parse html = List.find isRecipe (candidates parse html)"
  unfolding extractRecipeFromHtml_def candidates_def
  using collect_concat [of "findJsonLdScripts html" parse] findJsonLdScripts_trimmed [of _ html]
  by simp

lemma isRecipe_iff:
  "isRecipe v \<longleftrightarrow>
     (\<exists>kv. v = JObj kv \<and>
        (map_of kv (js ''@type'') = Some (JStr (js ''Recipe'')) \<or>
         (\<exists>ts. map_of kv (js ''@type'') = Some (JArr ts) \<and> JStr (js ''Recipe'') \<in> set ts)))"
  by (cases v) (auto split: option.splits json.splits)

lemma collect_skip:
  "parse (trim b) = None \<Longrightarrow> collect parse (bs1 @ b # bs2) acc = collect parse (bs1 @ bs2) acc"
  by (induction bs1 arbitrary: acc) (simp_all add: Let_def split: option.splits)

lemma find_unique:
  assumes "r \<in> set xs" and "P r" and "\<forall>x \<in> set xs. P x \<longrightarrow> x = r"
  shows "List.find P xs = Some r"
proof -
  from assms(1,2) obtain x where x: "List.find P xs = Some x"
    by (cases "List.find P xs") (auto simp: find_None_iff)
  then have "x \<in> set xs" and "P x"
    by (auto simp: find_Some_iff)
  with assms(3) have "x = r" by blast
  with x show ?thesis by simp
qed

lemma block_candidates:
  assumes "b \<in> set (findJsonLdScripts html)" and "parse b = Some w" and "r \<in> set (flattenJsonLd w)"
  shows "r \<in> set (candidates parse html)"
proof -
  have "r \<in> set (case parse b of Some v \<Rightarrow> flattenJsonLd v | None \<Rightarrow> [])"
    using assms(2,3) by simp
  with assms(1) show ?thesis
    unfolding candidates_def set_concat set_map by blast
qed

text \<open>
  Claim C1.  \<open>flattenJsonLd\<close> flattens a sequence element by element; an object with
  an \<open>@graph\<close> sequence yields itself, then the flattening of every element of that
  sequence; any other object yields itself alone.  The flattening is fully recursive:
  it yields exactly the objects that \<open>reaches\<close> relates to the input, so an object two
  levels inside \<open>@graph\<close> sequences is among them, and when such an object is the only
  Recipe among the candidates of the page, \<open>extractRecipeFromHtml\<close> returns it.
\<close>

theorem flattenJsonLd_recursive:
  "flattenJsonLd (JArr vs) = concat (map flattenJsonLd vs) \<and>
   (map_of kv (js ''@graph'') = Some (JArr g) \<longrightarrow>
      flattenJsonLd (JObj kv) = JObj kv # concat (map flattenJsonLd g)) \<and>
   ((\<forall>g. map_of kv (js ''@graph'') \<noteq> Some (JArr g)) \<longrightarrow> flattenJsonLd (JObj kv) = [JObj kv]) \<and>
   (y \<in> set (flattenJsonLd v) \<longleftrightarrow> reaches v y) \<and>
   (map_of kv1 (js ''@graph'') = Some (JArr g1) \<and> JObj kv2 \<in> set g1 \<and>
    map_of kv2 (js ''@graph'') = Some (JArr g2) \<and> JObj kv3 \<in> set g2 \<longrightarrow>
      JObj kv3 \<in> set (flattenJsonLd (JObj kv1))) \<and>
   (b \<in> set (findJsonLdScripts html) \<and> parse b = Some w \<and> reaches w r \<and> isRecipe r \<and>
    (\<forall>x \<in> set (candidates parse html). isRecipe x \<longrightarrow> x = r) \<longrightarrow>
      extractRecipeFromHtml parse html = Some r)"
proof (intro conjI impI)
  show "flattenJsonLd (JArr vs) = concat (map flattenJsonLd vs)" by simp
next
  assume "map_of kv (js ''@graph'') = Some (JArr g)"
  then show "flattenJsonLd (JObj kv) = JObj kv # concat (map flattenJsonLd g)" by simp
next
  assume "\<forall>g. map_of kv (js ''@graph'') \<noteq> Some (JArr g)"
  then show "flattenJsonLd (JObj kv) = [JObj kv]"
    by (simp split: option.splits json.splits)
next
  show "y \<in> set (flattenJsonLd v) \<longleftrightarrow> reaches v y"
    by (rule iffI) (erule flatten_reaches, erule reaches_flatten)
next
  assume a: "map_of kv1 (js ''@graph'') = Some (JArr g1) \<and> JObj kv2 \<in> set g1 \<and>
    map_of kv2 (js ''@graph'') = Some (JArr g2) \<and> JObj kv3 \<in> set g2"
  note g1 = a [THEN conjunct1]
    and m2 = a [THEN conjunct2, THEN conjunct1]
    and g2 = a [THEN conjunct2, THEN conjunct2, THEN conjunct1]
    and m3 = a [THEN conjunct2, THEN conjunct2, THEN conjunct2]
  have "reaches (JObj kv3) (JObj kv3)" by (rule reaches.self)
  then have "reaches (JObj kv2) (JObj kv3)" by (rule reaches.graph [OF g2 m3])
  then have "reaches (JObj kv1) (JObj kv3)" by (rule reaches.graph [OF g1 m2])
  then show "JObj kv3 \<in> set (flattenJsonLd (JObj kv1))" by (rule reaches_flatten)
next
  assume a: "b \<in> set (findJsonLdScripts html) \<and> parse b = Some w \<and> reaches w r \<and> isRecipe r \<and>
    (\<forall>x \<in> set (candidates parse html). isRecipe x \<longrightarrow> x = r)"
  note b = a [THEN conjunct1]
    and p = a [THEN conjunct2, THEN conjunct1]
    and re = a [THEN conjunct2, THEN conjunct2, THEN conjunct1]
    and ir = a [THEN conjunct2, THEN conjunct2, THEN conjunct2, THEN conjunct1]
    and un = a [THEN conjunct2, THEN conjunct2, THEN conjunct2, THEN conjunct2]
  have "r \<in> set (flattenJsonLd w)" by (rule reaches_flatten [OF re])
  then have "r \<in> set (candidates parse html)" by (rule block_candidates [of b html parse w r, OF b p])
  then have "List.find isRecipe (candidates parse html) = Some r"
    using ir un by (rule find_unique [of r "candidates parse html" isRecipe])
  then show "extractRecipeFromHtml parse html = Some r"
    by (simp only: extract_find_candidates)
qed

theorem flattenJsonLd_recursive_witness:
  "flattenJsonLd
     (JObj [(js ''@graph'', JArr [JObj [(js ''@graph'',
        JArr [JStr (js ''x''), JObj [(js ''@type'', JStr (js ''Recipe''))]])]])])
   = [JObj [(js ''@graph'', JArr [JObj [(js ''@graph'',
        JArr [JStr (js ''x''), JObj [(js ''@type'', JStr (js ''Recipe''))]])]])],
      JObj [(js ''@graph'', JArr [JStr (js ''x''), JObj [(js ''@type'', JStr (js ''Recipe''))]])],
      JObj [(js ''@type'', JStr (js ''Recipe''))]] \<and>
   reaches
     (JObj [(js ''@graph'', JArr [JObj [(js ''@graph'',
        JArr [JStr (js ''x''), JObj [(js ''@type'', JStr (js ''Recipe''))]])]])])
     (JObj [(js ''@type'', JStr (js ''Recipe''))]) \<and>
   extractRecipeFromHtml
     (\<lambda>s. if s = js ''{\"@graph\":[{\"@graph\":[\"x\",{\"@type\":\"Recipe\"}]}]}''
          then Some (JObj [(js ''@graph'', JArr [JObj [(js ''@graph'',
                 JArr [JStr (js ''x''), JObj [(js ''@type'', JStr (js ''Recipe''))]])]])])
          else None)
     (js ''<script type=\"application/ld+json\">{\"@graph\":[{\"@graph\":[\"x\",{\"@type\":\"Recipe\"}]}]}</script>'')
   = Some (JObj [(js ''@type'', JStr (js ''Recipe''))])"
proof -
  let ?R = "JObj [(js ''@type'', JStr (js ''Recipe''))]"
  let ?inner = "JObj [(js ''@graph'', JArr [JStr (js ''x''), ?R])]"
  let ?outer = "JObj [(js ''@graph'', JArr [?inner])]"
  let ?block = "js ''{\"@graph\":[{\"@graph\":[\"x\",{\"@type\":\"Recipe\"}]}]}''"
  let ?html = "js ''<script type=\"application/ld+json\">{\"@graph\":[{\"@graph\":[\"x\",{\"@type\":\"Recipe\"}]}]}</script>''"
  let ?parse = "\<lambda>s. if s = ?block then Some ?outer else None"
  have keys: "js ''@type'' \<noteq> js ''@graph''" by (simp add: js_def)
  have scripts: "findJsonLdScripts ?html = [?block]" by code_simp
  have flat: "flattenJsonLd ?outer = [?outer, ?inner, ?R]" by simp
  have cands: "candidates ?parse ?html = [?outer, ?inner, ?R]"
    by (simp add: candidates_def scripts)
  have rec: "isRecipe ?R" "\<not> isRecipe ?outer" "\<not> isRecipe ?inner"
    using keys by simp_all
  note inst = flattenJsonLd_recursive [where v = ?outer and y = ?R and b = ?block
      and html = ?html and parse = ?parse and w = ?outer and r = ?R]
  have reach: "reaches ?outer ?R"
    using inst [THEN conjunct2, THEN conjunct2, THEN conjunct2, THEN conjunct1] flat by simp
  have "extractRecipeFromHtml ?parse ?html = Some ?R"
    using inst [THEN conjunct2, THEN conjunct2, THEN conjunct2, THEN conjunct2, THEN conjunct2]
      reach rec by (simp add: scripts cands)
  with flat reach show ?thesis by simp
qed

section \<open>Properties of the extraction\<close>

text \<open>
  Claim C2.  \<open>extractRecipeFromHtml\<close> returns the first candidate, in document order
  across the blocks and in flattening order inside each block, that \<open>isRecipe\<close>
  accepts: an object whose \<open>@type\<close> is the string \<open>Recipe\<close> exactly, or a sequence
  with that string as a member.  It returns a candidate exactly when no earlier
  candidate is accepted, and nothing exactly when no candidate is accepted, so a
  Recipe of a later block is found when the earlier blocks hold none.
\<close>

theorem extractRecipeFromHtml_first_recipe:
  "extractRecipeFromHtml parse html = List.find isRecipe (candidates parse html) \<and>
   (isRecipe v \<longleftrightarrow>
      (\<exists>kv. v = JObj kv \<and>
         (map_of kv (js ''@type'') = Some (JStr (js ''Recipe'')) \<or>
          (\<exists>ts. map_of kv (js ''@type'') = Some (JArr ts) \<and> JStr (js ''Recipe'') \<in> set ts)))) \<and>
   (extractRecipeFromHtml parse html = Some r \<longleftrightarrow>
      (\<exists>i < length (candidates parse html).
          candidates parse html ! i = r \<and> isRecipe r \<and>
          (\<forall>j < i. \<not> isRecipe (candidates parse html ! j)))) \<and>
   (extractRecipeFromHtml parse html = None \<longleftrightarrow>
      (\<forall>x \<in> set (candidates parse html). \<not> isRecipe x))"
proof (intro conjI)
  show "extractRecipeFromHtml parse html = List.find isRecipe (candidates parse html)"
    by (rule extract_find_candidates)
  show "isRecipe v \<longleftrightarrow>
      (\<exists>kv. v = JObj kv \<and>
         (map_of kv (js ''@type'') = Some (JStr (js ''Recipe'')) \<or>
          (\<exists>ts. map_of kv (js ''@type'') = Some (JArr ts) \<and> JStr (js ''Recipe'') \<in> set ts)))"
    by (rule isRecipe_iff)
  show "extractRecipeFromHtml parse html = Some r \<longleftrightarrow>
      (\<exists>i < length (candidates parse html).
          candidates parse html ! i = r \<and> isRecipe r \<and>
          (\<forall>j < i. \<not> isRecipe (candidates parse html ! j)))"
    unfolding extract_find_candidates find_Some_iff by blast
  show "extractRecipeFromHtml parse html = None \<longleftrightarrow>
      (\<forall>x \<in> set (candidates parse html). \<not> isRecipe x)"
    unfolding extract_find_candidates find_None_iff by blast
qed

theorem extractRecipeFromHtml_first_recipe_witness:
  "candidates
     (\<lambda>s. if s = js ''{\"@type\":\"recipe\"}''
          then Some (JObj [(js ''@type'', JStr (js ''recipe''))])
          else if s = js ''[{\"@type\":[\"Thing\",\"Recipe\"]},{\"@type\":\"Recipe\"}]''
          then Some (JArr [JObj [(js ''@type'', JArr [JStr (js ''Thing''), JStr (js ''Recipe'')])],
                           JObj [(js ''@type'', JStr (js ''Recipe''))]])
          else None)
     (js ''<script type=\"application/ld+json\">{\"@type\":\"recipe\"}</script><p>x</p><script type=\"application/ld+json\">[{\"@type\":[\"Thing\",\"Recipe\"]},{\"@type\":\"Recipe\"}]</script>'')
   = [JObj [(js ''@type'', JStr (js ''recipe''))],
      JObj [(js ''@type'', JArr [JStr (js ''Thing''), JStr (js ''Recipe'')])],
      JObj [(js ''@type'', JStr (js ''Recipe''))]] \<and>
   \<not> isRecipe (JObj [(js ''@type'', JStr (js ''recipe''))]) \<and>
   isRecipe (JObj [(js ''@type'', JArr [JStr (js ''Thing''), JStr (js ''Recipe'')])]) \<and>
   isRecipe (JObj [(js ''@type'', JStr (js ''Recipe''))]) \<and>
   extractRecipeFromHtml
     (\<lambda>s. if s = js ''{\"@type\":\"recipe\"}''
          then Some (JObj [(js ''@type'', JStr (js ''recipe''))])
          else if s = js ''[{\"@type\":[\"Thing\",\"Recipe\"]},{\"@type\":\"Recipe\"}]''
          then Some (JArr [JObj [(js ''@type'', JArr [JStr (js ''Thing''), JStr (js ''Recipe'')])],
                           JObj [(js ''@type'', JStr (js ''Recipe''))]])
          else None)
     (js ''<script type=\"application/ld+json\">{\"@type\":\"recipe\"}</script><p>x</p><script type=\"application/ld+json\">[{\"@type\":[\"Thing\",\"Recipe\"]},{\"@type\":\"Recipe\"}]</script>'')
   = Some (JObj [(js ''@type'', JArr [JStr (js ''Thing''), JStr (js ''Recipe'')])])"
proof -
  let ?lower = "JObj [(js ''@type'', JStr (js ''recipe''))]"
  let ?A = "JObj [(js ''@type'', JArr [JStr (js ''Thing''), JStr (js ''Recipe'')])]"
  let ?B = "JObj [(js ''@type'', JStr (js ''Recipe''))]"
  let ?b1 = "js ''{\"@type\":\"recipe\"}''"
  let ?b2 = "js ''[{\"@type\":[\"Thing\",\"Recipe\"]},{\"@type\":\"Recipe\"}]''"
  let ?parse = "\<lambda>s. if s = ?b1 then Some ?lower else if s = ?b2 then Some (JArr [?A, ?B]) else None"
  let ?html = "js ''<script type=\"application/ld+json\">{\"@type\":\"recipe\"}</script><p>x</p><script type=\"application/ld+json\">[{\"@type\":[\"Thing\",\"Recipe\"]},{\"@type\":\"Recipe\"}]</script>''"
  have scripts: "findJsonLdScripts ?html = [?b1, ?b2]" by code_simp
  have blocks: "?b2 \<noteq> ?b1" by (simp add: js_def)
  have cands: "candidates ?parse ?html = [?lower, ?A, ?B]"
    using blocks by (simp add: candidates_def scripts)
  have rec: "\<not> isRecipe ?lower" "isRecipe ?A" "isRecipe ?B"
    by (simp_all add: js_def)
  have "extractRecipeFromHtml ?parse ?html = Some ?A"
    using extractRecipeFromHtml_first_recipe [where parse = ?parse and html = ?html, THEN conjunct1]
      rec by (simp add: cands)
  with cands rec show ?thesis by simp
qed

lemma canon_lt: "canon x = 0x3C \<longleftrightarrow> x = 0x3C"
proof
  assume a: "canon x = 0x3C"
  show "x = 0x3C"
  proof (cases "0x61 \<le> x \<and> x \<le> 0x7A")
    case True
    with a have "x - 0x20 = 0x3C" by (simp add: canon_def)
    then have "x = 0x5C" by (simp add: diff_eq_eq)
    with True show ?thesis by simp
  next
    case False
    with a show ?thesis by (simp add: canon_def)
  qed
next
  assume "x = 0x3C"
  then show "canon x = 0x3C" by (simp add: canon_def)
qed

lemma scriptRe_head: "\<exists>r. scriptRe = One (\<lambda>x. canon x = 0x3C) # r"
  by (simp add: scriptRe_def lit_i_def canon_def)

lemma rmatch_scriptRe_Nil: "rmatch scriptRe [] = None"
proof -
  obtain r where eq: "scriptRe = One (\<lambda>x. canon x = 0x3C) # r" using scriptRe_head by blast
  show ?thesis unfolding eq by simp
qed

lemma rmatch_scriptRe_other:
  assumes "c \<noteq> 0x3C"
  shows "rmatch scriptRe (c # cs) = None"
proof -
  obtain r where eq: "scriptRe = One (\<lambda>x. canon x = 0x3C) # r" using scriptRe_head by blast
  show ?thesis unfolding eq using assms by (simp add: canon_lt)
qed

lemma matchGlobal_no_tag: "0x3C \<notin> set html \<Longrightarrow> matchGlobal scriptRe html = []"
  by (induction html) (simp_all add: rmatch_scriptRe_Nil rmatch_scriptRe_other)

text \<open>
  Claim C3.  A page on which the pattern for JSON-LD script blocks matches nowhere
  yields no recipe, and so does a page all of whose blocks fail to parse; the result
  is a value in both cases, no exception leaves \<open>extractRecipeFromHtml\<close>.  A block
  that fails to parse is dropped alone: the result is the one for the remaining
  blocks.  A page without any \<open><\<close> is a page of the first kind.
\<close>

theorem extractRecipeFromHtml_absent:
  "(matchGlobal scriptRe html = [] \<longrightarrow> extractRecipeFromHtml parse html = None) \<and>
   ((\<forall>b \<in> set (findJsonLdScripts html). parse b = None) \<longrightarrow>
      extractRecipeFromHtml parse html = None) \<and>
   (findJsonLdScripts html = bs1 @ b # bs2 \<and> parse b = None \<longrightarrow>
      extractRecipeFromHtml parse html = List.find isRecipe (collect parse (bs1 @ bs2) [])) \<and>
   (0x3C \<notin> set html \<longrightarrow> extractRecipeFromHtml parse html = None)"
proof (intro conjI impI)
  assume "matchGlobal scriptRe html = []"
  then have "findJsonLdScripts html = []" by (simp add: findJsonLdScripts_def)
  then show "extractRecipeFromHtml parse html = None"
    by (simp add: extractRecipeFromHtml_def)
next
  assume "\<forall>b \<in> set (findJsonLdScripts html). parse b = None"
  then have "candidates parse html = []" by (simp add: candidates_def)
  then show "extractRecipeFromHtml parse html = None"
    by (simp add: extract_find_candidates)
next
  assume a: "findJsonLdScripts html = bs1 @ b # bs2 \<and> parse b = None"
  then have "b \<in> set (findJsonLdScripts html)" by simp
  then have "trim b = b" by (simp add: findJsonLdScripts_trimmed)
  with a have "parse (trim b) = None" by simp
  then have "collect parse (bs1 @ b # bs2) [] = collect parse (bs1 @ bs2) []"
    by (rule collect_skip)
  with a show "extractRecipeFromHtml parse html = List.find isRecipe (collect parse (bs1 @ bs2) [])"
    by (simp add: extractRecipeFromHtml_def)
next
  assume "0x3C \<notin> set html"
  then have "findJsonLdScripts html = []"
    by (simp add: findJsonLdScripts_def matchGlobal_no_tag)
  then show "extractRecipeFromHtml parse html = None"
    by (simp add: extractRecipeFromHtml_def)
qed

theorem extractRecipeFromHtml_absent_witness:
  "matchGlobal scriptRe (js ''<html><script>var x = 1;</script><p>no data</p></html>'') = [] \<and>
   extractRecipeFromHtml
     (\<lambda>s. if s = js ''{\"@type\":\"Recipe\"}'' then Some (JObj [(js ''@type'', JStr (js ''Recipe''))])
          else None)
     (js ''<html><script>var x = 1;</script><p>no data</p></html>'') = None \<and>
   findJsonLdScripts
     (js ''<script type=\"application/ld+json\">{oops</script><script type=\"application/ld+json\">[1,</script>'')
     = [js ''{oops'', js ''[1,''] \<and>
   extractRecipeFromHtml
     (\<lambda>s. if s = js ''{\"@type\":\"Recipe\"}'' then Some (JObj [(js ''@type'', JStr (js ''Recipe''))])
          else None)
     (js ''<script type=\"application/ld+json\">{oops</script><script type=\"application/ld+json\">[1,</script>'')
     = None \<and>
   findJsonLdScripts
     (js ''<script type=\"application/ld+json\">{oops</script><script type=\"application/ld+json\">{\"@type\":\"Recipe\"}</script>'')
     = [js ''{oops'', js ''{\"@type\":\"Recipe\"}''] \<and>
   extractRecipeFromHtml
     (\<lambda>s. if s = js ''{\"@type\":\"Recipe\"}'' then Some (JObj [(js ''@type'', JStr (js ''Recipe''))])
          else None)
     (js ''<script type=\"application/ld+json\">{oops</script><script type=\"application/ld+json\">{\"@type\":\"Recipe\"}</script>'')
     = Some (JObj [(js ''@type'', JStr (js ''Recipe''))]) \<and>
   extractRecipeFromHtml
     (\<lambda>s. if s = js ''{\"@type\":\"Recipe\"}'' then Some (JObj [(js ''@type'', JStr (js ''Recipe''))])
          else None)
     (js ''plain text, no markup'') = None"
proof -
  let ?R = "JObj [(js ''@type'', JStr (js ''Recipe''))]"
  let ?good = "js ''{\"@type\":\"Recipe\"}''"
  let ?parse = "\<lambda>s. if s = ?good then Some ?R else None"
  let ?h1 = "js ''<html><script>var x = 1;</script><p>no data</p></html>''"
  let ?h2 = "js ''<script type=\"application/ld+json\">{oops</script><script type=\"application/ld+json\">[1,</script>''"
  let ?h3 = "js ''<script type=\"application/ld+json\">{oops</script><script type=\"application/ld+json\">{\"@type\":\"Recipe\"}</script>''"
  have m1: "matchGlobal scriptRe ?h1 = []" by code_simp
  have s2: "findJsonLdScripts ?h2 = [js ''{oops'', js ''[1,'']" by code_simp
  have s3: "findJsonLdScripts ?h3 = [js ''{oops'', ?good]" by code_simp
  have bad: "js ''{oops'' \<noteq> ?good" "js ''[1,'' \<noteq> ?good" by (simp_all add: js_def)
  have nonblank: "trim ?good = ?good" "?good \<noteq> []" by (simp_all add: js_def trim_def isWhiteSpace_def)
  have e1: "extractRecipeFromHtml ?parse ?h1 = None"
    using extractRecipeFromHtml_absent [where parse = ?parse and html = ?h1, THEN conjunct1] m1
    by simp
  have e2: "extractRecipeFromHtml ?parse ?h2 = None"
    using extractRecipeFromHtml_absent [where parse = ?parse and html = ?h2,
        THEN conjunct2, THEN conjunct1] bad
    by (simp add: s2)
  have e3: "extractRecipeFromHtml ?parse ?h3 = Some ?R"
    using extractRecipeFromHtml_absent [where parse = ?parse and html = ?h3 and ?bs1.0 = "[]"
        and b = "js ''{oops''" and ?bs2.0 = "[?good]", THEN conjunct2, THEN conjunct2,
        THEN conjunct1] bad nonblank
    by (simp add: s3)
  have e4: "extractRecipeFromHtml ?parse (js ''plain text, no markup'') = None"
    using extractRecipeFromHtml_absent [where parse = ?parse and html = "js ''plain text, no markup''",
        THEN conjunct2, THEN conjunct2, THEN conjunct2]
    by (simp add: js_def)
  from m1 e1 s2 e2 s3 e3 e4 show ?thesis by simp
qed

section \<open>Properties of the endpoint\<close>

lemma decimalValue_append:
  "decimalValue (s @ [d]) = 10 * decimalValue s + (unat d - 48)"
  by (simp add: decimalValue_def)

lemma unat_digit: "d < 10 \<Longrightarrow> unat (of_nat (48 + d) :: cu) = 48 + d"
  unfolding unat_of_nat by simp

lemma decimalValue_decimal: "decimalValue (decimal n) = n"
proof (induction n rule: decimal.induct)
  case (1 n)
  show ?case
  proof (cases "n < 10")
    case True
    then show ?thesis
      using unat_digit [of n] by (simp add: decimal.simps [of n] decimalValue_def)
  next
    case False
    then have "decimalValue (decimal n) = 10 * decimalValue (decimal (n div 10)) + (unat (of_nat (48 + n mod 10) :: cu) - 48)"
      by (simp add: decimal.simps [of n] decimalValue_append)
    also have "\<dots> = 10 * (n div 10) + n mod 10"
      using "1.IH" [OF False] unat_digit [of "n mod 10"] by simp
    finally show ?thesis by simp
  qed
qed

text \<open>
  Claim C7.  When the \<open>url\<close> parameter of the request parses as a URL whose
  hostname is not in \<open>ALLOWED_HOSTS\<close>, the endpoint answers with status 400, whatever
  the rest of the URL is; \<open>evil.com\<close> is such a hostname.
\<close>

theorem fetch_disallowed_host:
  assumes "parseURL env requestUrl = Some u"
    and "map_of (searchParams u) (js ''url'') = Some target"
    and "parseURL env target = Some targetUrl"
  shows "(hostname targetUrl \<notin> ALLOWED_HOSTS \<longrightarrow>
            fetch env requestUrl =
              Inr (textResponse 400
                    (if target = [] then js ''Missing url parameter.''
                     else js ''Only bonappetit.com URLs are allowed.''))) \<and>
         (hostname targetUrl = js ''evil.com'' \<longrightarrow>
            fetch env requestUrl =
              Inr (textResponse 400
                    (if target = [] then js ''Missing url parameter.''
                     else js ''Only bonappetit.com URLs are allowed.'')))"
proof -
  have evil: "js ''evil.com'' \<notin> ALLOWED_HOSTS"
    by (simp add: ALLOWED_HOSTS_def js_def)
  have "hostname targetUrl \<notin> ALLOWED_HOSTS \<Longrightarrow>
          fetch env requestUrl =
              Inr (textResponse 400
                    (if target = [] then js ''Missing url parameter.''
                     else js ''Only bonappetit.com URLs are allowed.''))"
    using assms by (simp add: fetch_def)
  with evil show ?thesis by auto
qed

theorem fetch_disallowed_host_witness:
  "fetch
     \<lparr>parseURL = (\<lambda>s.
          if s = js ''https://a.test/api?url=https%3A%2F%2Fevil.com%2Fpie''
          then Some \<lparr>hostname = js ''a.test'', href = s,
                      searchParams = [(js ''url'', js ''https://evil.com/pie'')]\<rparr>
          else if s = js ''https://evil.com/pie''
          then Some \<lparr>hostname = js ''evil.com'', href = s, searchParams = []\<rparr>
          else None),
      httpGet = (\<lambda>target headers. None),
      jsonParse = (\<lambda>s. None)\<rparr>
     (js ''https://a.test/api?url=https%3A%2F%2Fevil.com%2Fpie'')
   = Inr (textResponse 400 (js ''Only bonappetit.com URLs are allowed.''))"
proof -
  let ?req = "js ''https://a.test/api?url=https%3A%2F%2Fevil.com%2Fpie''"
  let ?target = "js ''https://evil.com/pie''"
  let ?u = "\<lparr>hostname = js ''a.test'', href = ?req, searchParams = [(js ''url'', ?target)]\<rparr>"
  let ?t = "\<lparr>hostname = js ''evil.com'', href = ?target, searchParams = []\<rparr>"
  let ?env = "\<lparr>parseURL = (\<lambda>s. if s = ?req then Some \<lparr>hostname = js ''a.test'', href = s,
                      searchParams = [(js ''url'', ?target)]\<rparr>
          else if s = ?target then Some \<lparr>hostname = js ''evil.com'', href = s, searchParams = []\<rparr>
          else None),
      httpGet = (\<lambda>target headers. None :: upstream option),
      jsonParse = (\<lambda>s. None :: json option)\<rparr>"
  have ne: "?target \<noteq> ?req" "?target \<noteq> []" by (simp_all add: js_def)
  have p1: "parseURL ?env ?req = Some ?u" by simp
  have p2: "parseURL ?env ?target = Some ?t" using ne by simp
  have q: "map_of (searchParams ?u) (js ''url'') = Some ?target" by simp
  have h: "hostname ?t = js ''evil.com''" by simp
  from fetch_disallowed_host [OF p1 q p2, THEN conjunct2] h ne(2)
  show ?thesis by simp
qed

text \<open>
  Claim C8.  When the request is allowed and the upstream response is not \<open>ok\<close>,
  the endpoint answers with status 502 and a text body that contains the upstream
  status in decimal; for an upstream 404 the body is
  \<open>Upstream request failed (404).\<close>
\<close>

theorem fetch_upstream_failure:
  assumes "parseURL env requestUrl = Some u"
    and "map_of (searchParams u) (js ''url'') = Some target"
    and "target \<noteq> []"
    and "parseURL env target = Some targetUrl"
    and "hostname targetUrl \<in> ALLOWED_HOSTS"
    and "httpGet env (href targetUrl) upstreamHeaders = Some up"
  shows "(\<not> up_ok up \<longrightarrow>
            fetch env requestUrl =
              Inr (textResponse 502
                    (js ''Upstream request failed ('' @ decimal (up_status up) @ js '').''))) \<and>
         (up_status up = 404 \<longrightarrow>
            fetch env requestUrl =
              Inr (textResponse 502 (js ''Upstream request failed (404).''))) \<and>
         decimalValue (decimal (up_status up)) = up_status up"
proof (intro conjI impI)
  assume "\<not> up_ok up"
  then show "fetch env requestUrl =
      Inr (textResponse 502 (js ''Upstream request failed ('' @ decimal (up_status up) @ js '').''))"
    using assms by (simp add: fetch_def)
next
  assume st: "up_status up = 404"
  then have "\<not> up_ok up" by (simp add: up_ok_def)
  then have "fetch env requestUrl =
      Inr (textResponse 502 (js ''Upstream request failed ('' @ decimal (up_status up) @ js '').''))"
    using assms by (simp add: fetch_def)
  moreover have "decimal 404 = js ''404''" by (simp add: decimal.simps js_def)
  ultimately show "fetch env requestUrl =
      Inr (textResponse 502 (js ''Upstream request failed (404).''))"
    using st by (simp add: js_def)
next
  show "decimalValue (decimal (up_status up)) = up_status up"
    by (rule decimalValue_decimal)
qed

theorem fetch_upstream_failure_witness:
  "fetch
     \<lparr>parseURL = (\<lambda>s.
          if s = js ''https://a.test/api?url=https%3A%2F%2Fwww.bonappetit.com%2Fpie''
          then Some \<lparr>hostname = js ''a.test'', href = s,
                      searchParams = [(js ''url'', js ''https://www.bonappetit.com/pie'')]\<rparr>
          else if s = js ''https://www.bonappetit.com/pie''
          then Some \<lparr>hostname = js ''www.bonappetit.com'', href = s, searchParams = []\<rparr>
          else None),
      httpGet = (\<lambda>target headers.
          if target = js ''https://www.bonappetit.com/pie'' \<and> headers = upstreamHeaders
          then Some \<lparr>up_status = 404, up_text = js ''Not Found''\<rparr> else None),
      jsonParse = (\<lambda>s. None)\<rparr>
     (js ''https://a.test/api?url=https%3A%2F%2Fwww.bonappetit.com%2Fpie'')
   = Inr (textResponse 502 (js ''Upstream request failed (404).'')) \<and>
   decimal 404 = js ''404'' \<and> decimalValue (js ''404'') = 404"
proof -
  let ?req = "js ''https://a.test/api?url=https%3A%2F%2Fwww.bonappetit.com%2Fpie''"
  let ?target = "js ''https://www.bonappetit.com/pie''"
  let ?u = "\<lparr>hostname = js ''a.test'', href = ?req, searchParams = [(js ''url'', ?target)]\<rparr>"
  let ?t = "\<lparr>hostname = js ''www.bonappetit.com'', href = ?target, searchParams = []\<rparr>"
  let ?up = "\<lparr>up_status = 404, up_text = js ''Not Found''\<rparr>"
  let ?env = "\<lparr>parseURL = (\<lambda>s. if s = ?req then Some \<lparr>hostname = js ''a.test'', href = s,
                      searchParams = [(js ''url'', ?target)]\<rparr>
          else if s = ?target
          then Some \<lparr>hostname = js ''www.bonappetit.com'', href = s, searchParams = []\<rparr>
          else None),
      httpGet = (\<lambda>target headers.
          if target = ?target \<and> headers = upstreamHeaders then Some ?up else None),
      jsonParse = (\<lambda>s. None :: json option)\<rparr>"
  have ne: "?target \<noteq> ?req" "?target \<noteq> []" by (simp_all add: js_def)
  have p1: "parseURL ?env ?req = Some ?u" by simp
  have p2: "parseURL ?env ?target = Some ?t" using ne by simp
  have q: "map_of (searchParams ?u) (js ''url'') = Some ?target" by simp
  have h: "hostname ?t \<in> ALLOWED_HOSTS" by (simp add: ALLOWED_HOSTS_def)
  have g: "httpGet ?env (href ?t) upstreamHeaders = Some ?up" by simp
  have d: "decimal 404 = js ''404''" by (simp add: decimal.simps js_def)
  note inst = fetch_upstream_failure [OF p1 q ne(2) p2 h g]
  have "fetch ?env ?req = Inr (textResponse 502 (js ''Upstream request failed (404).''))"
    using inst [THEN conjunct2, THEN conjunct1] by simp
  moreover have "decimalValue (js ''404'') = 404"
    using inst [THEN conjunct2, THEN conjunct2] d by simp
  ultimately show ?thesis using d by simp
qed

section \<open>Properties of the field normalizers\<close>

lemma linesOf_nonempty: "linesOf s \<noteq> []"
  by (induction s rule: linesOf.induct) (auto split: list.splits)

lemma rmatch_lineBreak:
  "rmatch lineBreakRe (c # cs) =
     (if c = 0xA then Some cs
      else if c = 0xD \<and> cs \<noteq> [] \<and> hd cs = 0xA then Some (tl cs)
      else None)"
  by (cases cs) (simp_all add: lineBreakRe_def)

lemma splitFrom_linesOf:
  "splitFrom lineBreakRe acc s = (rev acc @ hd (linesOf s)) # tl (linesOf s)"
proof (induction s arbitrary: acc rule: linesOf.induct)
  case 1
  show ?case by simp
next
  case (2 c cs)
  show ?case
  proof (cases "c = 0xA")
    case True
    then show ?thesis
      using "2.IH"(1) [OF True, of "[]"] linesOf_nonempty [of cs]
      by (simp add: rmatch_lineBreak)
  next
    case False
    show ?thesis
    proof (cases "c = 0xD \<and> cs \<noteq> [] \<and> hd cs = 0xA")
      case True
      then have "length (tl cs) < Suc (length cs)" by simp
      then show ?thesis
        using False True "2.IH"(2) [OF False True, of "[]"] linesOf_nonempty [of "tl cs"]
        by (simp add: rmatch_lineBreak)
    next
      case nb: False
      obtain l ls where L: "linesOf cs = l # ls"
        using linesOf_nonempty [of cs] by (cases "linesOf cs") auto
      have m: "rmatch lineBreakRe (c # cs) = None"
        by (simp only: rmatch_lineBreak False nb if_False)
      have l: "linesOf (c # cs) = (c # l) # ls"
        by (simp only: linesOf.simps False nb if_False L list.case)
      show ?thesis
        using "2.IH"(3) [OF False nb, of "c # acc"] L
        by (simp add: m l del: linesOf.simps)
    qed
  qed
qed

lemma splitRe_linesOf: "splitRe lineBreakRe s = linesOf s"
proof (cases s)
  case Nil
  then show ?thesis by (simp add: splitRe_def lineBreakRe_def)
next
  case (Cons c cs)
  then show ?thesis
    using splitFrom_linesOf [of "[]" s] linesOf_nonempty [of s]
    by (simp add: splitRe_def)
qed

lemma trimAll_strings: "trimAll (map JStr xs) = Inr (map trim xs)"
  by (induction xs) simp_all

lemma trimAndFilter_strings:
  "trimAndFilter (map JStr xs) = Inr (filter (\<lambda>y. y \<noteq> []) (map trim xs))"
  by (simp add: trimAndFilter_def trimAll_strings)

text \<open>
  Claim C4.  \<open>normalizeIngredients\<close> on a list of strings trims every entry and
  drops the empty ones, in order; on a string it does the same to the lines of the
  string, a line ending being a line feed or a carriage return and a line feed; on
  an absent value it returns the empty list.  The string
  \<open>"2 eggs\n1 cup flour\n\n"\<close> gives \<open>["2 eggs", "1 cup flour"]\<close>.
\<close>

theorem normalizeIngredients_shapes:
  "normalizeIngredients (Some (JArr (map JStr xs))) = Inr (filter (\<lambda>y. y \<noteq> []) (map trim xs)) \<and>
   normalizeIngredients (Some (JStr s)) = Inr (filter (\<lambda>y. y \<noteq> []) (map trim (linesOf s))) \<and>
   normalizeIngredients None = Inr [] \<and>
   normalizeIngredients (Some (JStr (js ''2 eggs\<newline>1 cup flour\<newline>\<newline>'')))
     = Inr [js ''2 eggs'', js ''1 cup flour'']"
proof (intro conjI)
  show "normalizeIngredients (Some (JArr (map JStr xs))) = Inr (filter (\<lambda>y. y \<noteq> []) (map trim xs))"
    by (simp add: trimAndFilter_strings)
  show str: "normalizeIngredients (Some (JStr s)) = Inr (filter (\<lambda>y. y \<noteq> []) (map trim (linesOf s)))" for s
    by (cases "s = []") (simp_all add: trimAndFilter_strings splitRe_linesOf trim_def)
  show "normalizeIngredients None = Inr []" by simp
  show "normalizeIngredients (Some (JStr (js ''2 eggs\<newline>1 cup flour\<newline>\<newline>'')))
     = Inr [js ''2 eggs'', js ''1 cup flour'']"
    unfolding str by (simp add: js_def trim_def isWhiteSpace_def)
qed

lemma trimAll_trimmed: "trimAll items = Inr ys \<Longrightarrow> y \<in> set ys \<Longrightarrow> trim y = y"
proof (induction items arbitrary: ys rule: trimAll.induct)
  case 1
  then show ?case by simp
next
  case (2 s items)
  then show ?case
    by (auto split: sum.splits simp: trim_idem)
qed simp_all

lemma trimAndFilter_clean:
  "trimAndFilter items = Inr ys \<Longrightarrow> y \<in> set ys \<Longrightarrow> y \<noteq> [] \<and> trim y = y"
  by (auto simp: trimAndFilter_def split: sum.splits dest: trimAll_trimmed)

lemma normalizeIngredients_clean:
  assumes "normalizeIngredients v = Inr ys" and "y \<in> set ys"
  shows "y \<noteq> [] \<and> trim y = y"
proof (cases v)
  case None
  with assms show ?thesis by simp
next
  case (Some x)
  show ?thesis
  proof (cases "truthy x")
    case False
    with Some assms show ?thesis by simp
  next
    case True
    with Some assms show ?thesis
      by (cases x) (auto dest: trimAndFilter_clean)
  qed
qed

lemma clean_fixed:
  assumes "\<forall>x \<in> set xs. x \<noteq> [] \<and> trim x = x"
  shows "normalizeIngredients (Some (JArr (map JStr xs))) = Inr xs"
proof -
  have "map trim xs = xs" using assms by (simp add: map_idI)
  moreover have "filter (\<lambda>y. y \<noteq> []) xs = xs" using assms by (simp add: filter_id_conv)
  ultimately show ?thesis by (simp add: trimAndFilter_strings)
qed

text \<open>
  Claim C9.  A list of ingredients whose entries are all trimmed and not empty is
  returned unchanged by \<open>normalizeIngredients\<close>, and every list the function
  returns is such a list: normalizing it again changes nothing.
\<close>

theorem normalizeIngredients_clean_identity:
  "((\<forall>x \<in> set xs. x \<noteq> [] \<and> trim x = x) \<longrightarrow>
      normalizeIngredients (Some (JArr (map JStr xs))) = Inr xs) \<and>
   (normalizeIngredients v = Inr ys \<longrightarrow>
      normalizeIngredients (Some (JArr (map JStr ys))) = Inr ys)"
proof (intro conjI impI)
  assume "\<forall>x \<in> set xs. x \<noteq> [] \<and> trim x = x"
  then show "normalizeIngredients (Some (JArr (map JStr xs))) = Inr xs"
    by (rule clean_fixed)
next
  assume "normalizeIngredients v = Inr ys"
  then have "\<forall>y \<in> set ys. y \<noteq> [] \<and> trim y = y"
    using normalizeIngredients_clean by blast
  then show "normalizeIngredients (Some (JArr (map JStr ys))) = Inr ys"
    by (rule clean_fixed)
qed

theorem normalizeIngredients_clean_identity_witness:
  "js ''2 eggs'' \<noteq> [] \<and> trim (js ''2 eggs'') = js ''2 eggs'' \<and>
   js ''1 cup flour'' \<noteq> [] \<and> trim (js ''1 cup flour'') = js ''1 cup flour'' \<and>
   normalizeIngredients (Some (JArr [JStr (js ''2 eggs''), JStr (js ''1 cup flour'')]))
     = Inr [js ''2 eggs'', js ''1 cup flour''] \<and>
   normalizeIngredients (Some (JArr [JStr (js '' salt ''), JStr (js ''  ''), JStr (js ''oil'')]))
     = Inr [js ''salt'', js ''oil''] \<and>
   normalizeIngredients (Some (JArr [JStr (js ''salt''), JStr (js ''oil'')]))
     = Inr [js ''salt'', js ''oil'']"
proof -
  have c: "js ''2 eggs'' \<noteq> []" "trim (js ''2 eggs'') = js ''2 eggs''"
    "js ''1 cup flour'' \<noteq> []" "trim (js ''1 cup flour'') = js ''1 cup flour''"
    by (simp_all add: js_def trim_def isWhiteSpace_def)
  have n: "normalizeIngredients (Some (JArr [JStr (js '' salt ''), JStr (js ''  ''), JStr (js ''oil'')]))
     = Inr [js ''salt'', js ''oil'']"
    by (simp add: js_def trimAndFilter_def trim_def isWhiteSpace_def)
  have "normalizeIngredients (Some (JArr [JStr (js ''2 eggs''), JStr (js ''1 cup flour'')]))
     = Inr [js ''2 eggs'', js ''1 cup flour'']"
    using normalizeIngredients_clean_identity [where xs = "[js ''2 eggs'', js ''1 cup flour'']",
        THEN conjunct1] c by simp
  moreover have "normalizeIngredients (Some (JArr [JStr (js ''salt''), JStr (js ''oil'')]))
     = Inr [js ''salt'', js ''oil'']"
    using normalizeIngredients_clean_identity [where ys = "[js ''salt'', js ''oil'']"
        and v = "Some (JArr [JStr (js '' salt ''), JStr (js ''  ''), JStr (js ''oil'')])",
        THEN conjunct2] n by simp
  ultimately show ?thesis using c n by simp
qed

lemma stepTexts_declared: "declaredStep item \<Longrightarrow> stepTexts item = map JStr (specStepTexts item)"
  by (cases item) (auto split: option.splits json.splits)

lemma concat_stepTexts_declared:
  "\<forall>item \<in> set items. declaredStep item \<Longrightarrow>
   concat (map stepTexts items) = map JStr (concat (map specStepTexts items))"
  by (induction items) (simp_all add: stepTexts_declared)

text \<open>
  An object whose \<open>text\<close> is the empty string and whose \<open>itemListElement\<close> is a
  string: the wording of the specification takes the (empty) text, the program takes
  the \<open>itemListElement\<close>, since it tests \<open>item?.text\<close> for truthiness.
\<close>

theorem normalizeInstructions_text_empty_counterexample:
  "normalizeInstructions
     (Some (JArr [JObj [(js ''text'', JStr []), (js ''itemListElement'', JStr (js ''Bake''))]]))
     = Inr [js ''Bake''] \<and>
   filter (\<lambda>y. y \<noteq> []) (map trim (concat (map claimedStepTexts
     [JObj [(js ''text'', JStr []), (js ''itemListElement'', JStr (js ''Bake''))]]))) = [] \<and>
   normalizeInstructions
     (Some (JArr [JObj [(js ''text'', JStr []), (js ''itemListElement'', JStr (js ''Bake''))]]))
     \<noteq> Inr (filter (\<lambda>y. y \<noteq> []) (map trim (concat (map claimedStepTexts
     [JObj [(js ''text'', JStr []), (js ''itemListElement'', JStr (js ''Bake''))]]))))"
  by (simp add: js_def trimAndFilter_def trim_def isWhiteSpace_def)

text \<open>
  Claim C5, amended.  \<open>normalizeInstructions\<close> on a string trims its lines and
  drops the empty ones.  On a list whose elements have the declared type, an element
  contributes: itself when it is a string; its \<open>text\<close> when it is an object with a
  \<open>text\<close> that is not empty; otherwise its \<open>itemListElement\<close> when that is a
  string; otherwise nothing.  The contributions are concatenated in order, trimmed,
  and the empty ones dropped.  The list
  \<open>[{"text":"Preheat oven"}, "Mix", {"itemListElement":"Bake"}, {}]\<close> gives
  \<open>["Preheat oven", "Mix", "Bake"]\<close>.
\<close>

theorem normalizeInstructions_shapes:
  "normalizeInstructions (Some (JStr s)) = Inr (filter (\<lambda>y. y \<noteq> []) (map trim (linesOf s))) \<and>
   ((\<forall>item \<in> set items. declaredStep item) \<longrightarrow>
      normalizeInstructions (Some (JArr items))
        = Inr (filter (\<lambda>y. y \<noteq> []) (map trim (concat (map specStepTexts items))))) \<and>
   normalizeInstructions
     (Some (JArr [JObj [(js ''text'', JStr (js ''Preheat oven''))], JStr (js ''Mix''),
                  JObj [(js ''itemListElement'', JStr (js ''Bake''))], JObj []]))
     = Inr [js ''Preheat oven'', js ''Mix'', js ''Bake'']"
proof (intro conjI impI)
  show "normalizeInstructions (Some (JStr s)) = Inr (filter (\<lambda>y. y \<noteq> []) (map trim (linesOf s)))"
    by (cases "s = []") (simp_all add: trimAndFilter_strings splitRe_linesOf trim_def)
next
  assume "\<forall>item \<in> set items. declaredStep item"
  then show "normalizeInstructions (Some (JArr items))
        = Inr (filter (\<lambda>y. y \<noteq> []) (map trim (concat (map specStepTexts items))))"
    by (simp add: concat_stepTexts_declared trimAndFilter_strings)
next
  show "normalizeInstructions
     (Some (JArr [JObj [(js ''text'', JStr (js ''Preheat oven''))], JStr (js ''Mix''),
                  JObj [(js ''itemListElement'', JStr (js ''Bake''))], JObj []]))
     = Inr [js ''Preheat oven'', js ''Mix'', js ''Bake'']"
    by (simp add: js_def trimAndFilter_def trim_def isWhiteSpace_def)
qed

theorem normalizeInstructions_shapes_witness:
  "declaredStep (JObj [(js ''text'', JStr []), (js ''itemListElement'', JStr (js ''Bake''))]) \<and>
   declaredStep (JObj [(js ''text'', JStr (js '' Stir ''))]) \<and>
   declaredStep (JStr (js ''Mix'')) \<and>
   normalizeInstructions
     (Some (JArr [JObj [(js ''text'', JStr []), (js ''itemListElement'', JStr (js ''Bake''))],
                  JObj [(js ''text'', JStr (js '' Stir ''))], JStr (js ''Mix'')]))
     = Inr [js ''Bake'', js ''Stir'', js ''Mix'']"
proof -
  let ?a = "JObj [(js ''text'', JStr []), (js ''itemListElement'', JStr (js ''Bake''))]"
  let ?b = "JObj [(js ''text'', JStr (js '' Stir ''))]"
  let ?c = "JStr (js ''Mix'')"
  have d: "declaredStep ?a" "declaredStep ?b" "declaredStep ?c" by simp_all
  have k: "js ''itemListElement'' \<noteq> js ''text''" by (simp add: js_def)
  have s: "filter (\<lambda>y. y \<noteq> []) (map trim (concat (map specStepTexts [?a, ?b, ?c])))
             = [js ''Bake'', js ''Stir'', js ''Mix'']"
    using k by (simp add: js_def trim_def isWhiteSpace_def)
  have "normalizeInstructions (Some (JArr [?a, ?b, ?c])) = Inr [js ''Bake'', js ''Stir'', js ''Mix'']"
    using normalizeInstructions_shapes [where items = "[?a, ?b, ?c]", THEN conjunct2, THEN conjunct1]
      d s by simp
  with d show ?thesis by simp
qed

lemma declaredUrlObject_url:
  "declaredUrlObject v \<Longrightarrow> urlOrNull (Some v) = JNull \<or> isString (urlOrNull (Some v))"
  by (cases v) (auto split: option.splits json.splits)

lemma declaredImage_result:
  assumes "declaredImage v"
  shows "resolveImageUrl (Some v) = JNull \<or> isString (resolveImageUrl (Some v))"
proof (cases v)
  case (JArr items)
  show ?thesis
  proof (cases items)
    case Nil
    with JArr show ?thesis by simp
  next
    case (Cons first rest)
    with JArr assms have "isString first \<or> declaredUrlObject first" by auto
    then show ?thesis
    proof
      assume "isString first"
      then show ?thesis using JArr Cons by (cases first) simp_all
    next
      assume u: "declaredUrlObject first"
      then obtain kv where "first = JObj kv" by (cases first) simp_all
      with declaredUrlObject_url [OF u] JArr Cons show ?thesis by simp
    qed
  qed
next
  case (JObj kv)
  with assms declaredUrlObject_url [of v] show ?thesis by simp
qed (use assms in simp_all)

text \<open>
  The empty string is a string input, and \<open>resolveImageUrl\<close> answers \<open>null\<close> for
  it, not the string: the guard \<open>if (!value) return null\<close> comes first.
\<close>

theorem resolveImageUrl_empty_string_counterexample:
  "resolveImageUrl (Some (JStr [])) = JNull \<and> resolveImageUrl (Some (JStr [])) \<noteq> JStr []"
  by simp

text \<open>
  Claim C6, amended.  \<open>resolveImageUrl\<close> returns a string input that is not empty
  as it is, and \<open>null\<close> for the empty string.  A list is resolved from its first
  element alone: a string gives itself, an object its \<open>url\<close> field, or \<open>null\<close>
  when it has none.  An object gives its \<open>url\<close> field, or \<open>null\<close> when it has none.
  On a value of the declared type the result is \<open>null\<close> or one string, never a
  list.  The list \<open>[{"url":"https://x/1.jpg"},{"url":"https://x/2.jpg"}]\<close> gives
  \<open>"https://x/1.jpg"\<close>.
\<close>

theorem resolveImageUrl_shapes:
  "(s \<noteq> [] \<longrightarrow> resolveImageUrl (Some (JStr s)) = JStr s) \<and>
   resolveImageUrl (Some (JStr [])) = JNull \<and>
   resolveImageUrl (Some (JArr (JStr s # rest))) = JStr s \<and>
   resolveImageUrl (Some (JArr (JObj kv # rest)))
     = (case map_of kv (js ''url'') of Some u \<Rightarrow> u | None \<Rightarrow> JNull) \<and>
   resolveImageUrl (Some (JObj kv))
     = (case map_of kv (js ''url'') of Some u \<Rightarrow> u | None \<Rightarrow> JNull) \<and>
   (declaredImage v \<longrightarrow>
      resolveImageUrl (Some v) = JNull \<or> isString (resolveImageUrl (Some v))) \<and>
   resolveImageUrl
     (Some (JArr [JObj [(js ''url'', JStr (js ''https://x/1.jpg''))],
                  JObj [(js ''url'', JStr (js ''https://x/2.jpg''))]]))
     = JStr (js ''https://x/1.jpg'')"
proof (intro conjI impI)
  assume "declaredImage v"
  then show "resolveImageUrl (Some v) = JNull \<or> isString (resolveImageUrl (Some v))"
    by (rule declaredImage_result)
qed simp_all

theorem resolveImageUrl_shapes_witness:
  "js ''https://x/1.jpg'' \<noteq> [] \<and>
   resolveImageUrl (Some (JStr (js ''https://x/1.jpg''))) = JStr (js ''https://x/1.jpg'') \<and>
   declaredImage (JArr [JObj [(js ''alt'', JStr (js ''pie''))], JObj [(js ''url'', JStr (js ''https://x/2.jpg''))]]) \<and>
   resolveImageUrl
     (Some (JArr [JObj [(js ''alt'', JStr (js ''pie''))], JObj [(js ''url'', JStr (js ''https://x/2.jpg''))]]))
     = JNull"
proof -
  let ?v = "JArr [JObj [(js ''alt'', JStr (js ''pie''))], JObj [(js ''url'', JStr (js ''https://x/2.jpg''))]]"
  have ne: "js ''https://x/1.jpg'' \<noteq> []" by (simp add: js_def)
  have k: "js ''alt'' \<noteq> js ''url''" by (simp add: js_def)
  have d: "declaredImage ?v" using k by simp
  have r: "resolveImageUrl (Some ?v) = JNull" using k by simp
  have "resolveImageUrl (Some (JStr (js ''https://x/1.jpg''))) = JStr (js ''https://x/1.jpg'')"
    using resolveImageUrl_shapes [where s = "js ''https://x/1.jpg''", THEN conjunct1] ne by simp
  moreover have "resolveImageUrl (Some ?v) = JNull \<or> isString (resolveImageUrl (Some ?v))"
    using resolveImageUrl_shapes [where v = ?v, THEN conjunct2, THEN conjunct2, THEN conjunct2,
        THEN conjunct2, THEN conjunct2, THEN conjunct1] d by simp
  ultimately show ?thesis using ne d r by simp
qed

end
